theory Spec2Isabelle
  imports Main "HOL-Library.AList" "HOL-Library.Multiset"
begin

section \<open>Documents of the store\<close>

text \<open>
  The application keeps two collections in a remote document store: \<open>users\<close> and
  \<open>projects\<close>. A user is known to the client by the \<open>uid\<close> of the signed-in
  identity; a document by its id. Both are JavaScript strings.
\<close>

type_synonym uid = string
type_synonym doc_id = string

text \<open>
  A time field holds either the sentinel that \<open>serverTimestamp()\<close> returns, which the
  store replaces by its own clock when it commits the write, or a resolved timestamp with
  its \<open>seconds\<close> since the epoch.
\<close>

datatype timestamp = ServerTimestamp | Timestamp int

text \<open>
  \<open>fileData\<close> as the detail view builds it (\<open>{ name, url, format }\<close>), and the
  attachment \<open>handleAddFile\<close> makes of it by spreading it and adding \<open>id\<close>,
  \<open>addedBy\<close> and \<open>addedAt\<close>.
\<close>

record file_data =
  name :: string
  url :: string
  format :: string

record attachment = file_data +
  file_id :: string
  addedBy :: uid
  addedAt :: string

text \<open>
  A project document. The fields the source reads with a default (\<open>updatedAt?.seconds || 0\<close>,
  \<open>createdAt ? ... : '-'\<close>, \<open>selectedProject[type] || []\<close>) may be absent.
\<close>

record project_doc =
  title :: string
  description :: string
  createdBy :: uid
  createdAt :: "timestamp option"
  updatedAt :: "timestamp option"
  status :: string
  inputs :: "attachment list option"
  outputs :: "attachment list option"
  comments :: "string list"

text \<open>\<open>newProject\<close> of the list view: what \<open>handleCreateProject\<close> receives as \<open>data\<close>.\<close>

record project_data =
  data_title :: string
  data_description :: string

record profile =
  uid :: uid
  profile_name :: string
  role :: string
  avatar :: string
  joinedAt :: timestamp

text \<open>The partial field sets that the handlers pass to \<open>updateDoc\<close>.\<close>

datatype list_name = Inputs | Outputs

datatype project_field =
    Status string
  | UpdatedAt timestamp
  | FileList list_name "attachment list"

datatype profile_field = Name string | Role string

section \<open>The document store\<close>

text \<open>
  The store is the Firestore service behind \<open>addDoc\<close>, \<open>updateDoc\<close>, \<open>setDoc\<close> and
  \<open>deleteDoc\<close>. The projects collection is an association list in the order in which a
  collection snapshot lists its documents; the users collection is a map. Every call may be
  rejected by the service (\<open>fault\<close>), \<open>updateDoc\<close> is rejected for a document that does
  not exist, and a committed write has every \<open>serverTimestamp()\<close> sentinel replaced by the
  server's clock \<open>now\<close>.
\<close>

datatype error = TransportFailure | NotFound | AuthFailure

record store =
  projects_col :: "(doc_id \<times> project_doc) list"
  users_col :: "uid \<rightharpoonup> profile"

fun resolve :: "int \<Rightarrow> timestamp \<Rightarrow> timestamp" where
  "resolve now ServerTimestamp = Timestamp now"
| "resolve now (Timestamp s) = Timestamp s"

definition resolve_project :: "int \<Rightarrow> project_doc \<Rightarrow> project_doc" where
  "resolve_project now d =
     d\<lparr>createdAt := map_option (resolve now) (createdAt d),
       updatedAt := map_option (resolve now) (updatedAt d)\<rparr>"

definition resolve_profile :: "int \<Rightarrow> profile \<Rightarrow> profile" where
  "resolve_profile now p = p\<lparr>joinedAt := resolve now (joinedAt p)\<rparr>"

fun set_project_field :: "project_field \<Rightarrow> project_doc \<Rightarrow> project_doc" where
  "set_project_field (Status s) d = d\<lparr>status := s\<rparr>"
| "set_project_field (UpdatedAt t) d = d\<lparr>updatedAt := Some t\<rparr>"
| "set_project_field (FileList Inputs fs) d = d\<lparr>inputs := Some fs\<rparr>"
| "set_project_field (FileList Outputs fs) d = d\<lparr>outputs := Some fs\<rparr>"

fun set_profile_field :: "profile_field \<Rightarrow> profile \<Rightarrow> profile" where
  "set_profile_field (Name n) p = p\<lparr>profile_name := n\<rparr>"
| "set_profile_field (Role r) p = p\<lparr>role := r\<rparr>"

definition get_project :: "store \<Rightarrow> doc_id \<Rightarrow> project_doc option" where
  "get_project st pid = map_of (projects_col st) pid"

text \<open>\<open>addDoc\<close>: the document is stored under the id \<open>new_id\<close> that the store generated.\<close>

definition addDoc :: "error option \<Rightarrow> store \<Rightarrow> doc_id \<Rightarrow> int \<Rightarrow> project_doc \<Rightarrow> error + store" where
  "addDoc fault st new_id now d =
     (case fault of
        Some e \<Rightarrow> Inl e
      | None \<Rightarrow>
          Inr (st\<lparr>projects_col := AList.update new_id (resolve_project now d) (projects_col st)\<rparr>))"

definition updateDoc_project ::
  "error option \<Rightarrow> store \<Rightarrow> doc_id \<Rightarrow> int \<Rightarrow> project_field list \<Rightarrow> error + store" where
  "updateDoc_project fault st pid now partialFields =
     (case fault of
        Some e \<Rightarrow> Inl e
      | None \<Rightarrow>
          (case get_project st pid of
             None \<Rightarrow> Inl NotFound
           | Some d \<Rightarrow>
               Inr (st\<lparr>projects_col :=
                      AList.update pid (resolve_project now (fold set_project_field partialFields d))
                        (projects_col st)\<rparr>)))"

definition deleteDoc :: "error option \<Rightarrow> store \<Rightarrow> doc_id \<Rightarrow> error + store" where
  "deleteDoc fault st pid =
     (case fault of
        Some e \<Rightarrow> Inl e
      | None \<Rightarrow> Inr (st\<lparr>projects_col := AList.delete pid (projects_col st)\<rparr>))"

definition setDoc_user :: "error option \<Rightarrow> store \<Rightarrow> uid \<Rightarrow> int \<Rightarrow> profile \<Rightarrow> error + store" where
  "setDoc_user fault st u now p =
     (case fault of
        Some e \<Rightarrow> Inl e
      | None \<Rightarrow> Inr (st\<lparr>users_col := (users_col st)(u \<mapsto> resolve_profile now p)\<rparr>))"

definition updateDoc_user ::
  "error option \<Rightarrow> store \<Rightarrow> uid \<Rightarrow> profile_field list \<Rightarrow> error + store" where
  "updateDoc_user fault st u partialFields =
     (case fault of
        Some e \<Rightarrow> Inl e
      | None \<Rightarrow>
          (case users_col st u of
             None \<Rightarrow> Inl NotFound
           | Some p \<Rightarrow> Inr (st\<lparr>users_col := (users_col st)(u \<mapsto> fold set_profile_field partialFields p)\<rparr>)))"

section \<open>The client: state of \<open>RequirementSystemPro\<close>\<close>

datatype tab = Dashboard | Projects | Detail | Team | Settings

text \<open>
  The \<open>useState\<close> cells of the component. \<open>user\<close> is the signed-in identity (only its
  \<open>uid\<close> is read); an element of \<open>projects\<close> is \<open>{ id: doc.id, ...doc.data() }\<close>.
\<close>

record client =
  user :: "uid option"
  userData :: "profile option"
  projects :: "(doc_id \<times> project_doc) list"
  usersMap :: "uid \<rightharpoonup> profile"
  activeTab :: tab
  selectedProject :: "(doc_id \<times> project_doc) option"
  loading :: bool

definition initial_client :: client where
  "initial_client =
     \<lparr>user = None, userData = None, projects = [], usersMap = Map.empty,
      activeTab = Dashboard, selectedProject = None, loading = True\<rparr>"

text \<open>What a handler shows to the user or logs, in order.\<close>

datatype effect =
    ConsoleError error
  | AlertCreateFailed
  | AlertAddFileFailed
  | AlertProfileUpdated
  | AlertIncomplete
  | AlertEmptyTitle
  | UnhandledRejection error

type_synonym outcome = "client \<times> store \<times> effect list"

section \<open>The actions\<close>

definition handleCreateProject ::
  "error option \<Rightarrow> doc_id \<Rightarrow> int \<Rightarrow> client \<Rightarrow> store \<Rightarrow> project_data \<Rightarrow> outcome" where
  "handleCreateProject fault new_id now c st data =
     (case user c of
        None \<Rightarrow> (c, st, [])
      | Some u \<Rightarrow>
          (case addDoc fault st new_id now
                  \<lparr>title = data_title data, description = data_description data,
                   createdBy = u,
                   createdAt = Some ServerTimestamp,
                   updatedAt = Some ServerTimestamp,
                   status = ''pending'',
                   inputs = Some [],
                   outputs = Some [],
                   comments = []\<rparr> of
             Inr st' \<Rightarrow> (c\<lparr>activeTab := Projects\<rparr>, st', [])
           | Inl e \<Rightarrow> (c, st, [ConsoleError e, AlertCreateFailed])))"

definition handleUpdateStatus ::
  "error option \<Rightarrow> int \<Rightarrow> client \<Rightarrow> store \<Rightarrow> doc_id \<Rightarrow> string \<Rightarrow> outcome" where
  "handleUpdateStatus fault now c st projectId newStatus =
     (case user c of
        None \<Rightarrow> (c, st, [])
      | Some u \<Rightarrow>
          (case updateDoc_project fault st projectId now
                  [Status newStatus, UpdatedAt ServerTimestamp] of
             Inr st' \<Rightarrow> (c, st', [])
           | Inl e \<Rightarrow> (c, st, [ConsoleError e])))"

text \<open>\<open>selectedProject[type] || []\<close>\<close>

fun file_list :: "list_name \<Rightarrow> project_doc \<Rightarrow> attachment list" where
  "file_list Inputs d = (case inputs d of None \<Rightarrow> [] | Some fs \<Rightarrow> fs)"
| "file_list Outputs d = (case outputs d of None \<Rightarrow> [] | Some fs \<Rightarrow> fs)"

text \<open>
  \<open>uuid\<close> is what \<open>crypto.randomUUID()\<close> returns and \<open>clock\<close> what
  \<open>new Date().toISOString()\<close> returns when the handler runs.
\<close>

definition handleAddFile ::
  "error option \<Rightarrow> string \<Rightarrow> string \<Rightarrow> int \<Rightarrow> client \<Rightarrow> store \<Rightarrow>
   doc_id \<Rightarrow> file_data \<Rightarrow> list_name \<Rightarrow> outcome" where
  "handleAddFile fault uuid clock now c st projectId fileData type =
     (case (selectedProject c, user c) of
        (Some sel, Some u) \<Rightarrow>
          (let newFile = file_data.extend fileData
                           (attachment.fields uuid u clock);
               currentList = file_list type (snd sel)
           in case updateDoc_project fault st projectId now
                     [FileList type (currentList @ [newFile]), UpdatedAt ServerTimestamp] of
                Inr st' \<Rightarrow> (c, st', [])
              | Inl e \<Rightarrow> (c, st, [ConsoleError e, AlertAddFileFailed]))
      | _ \<Rightarrow> (c, st, []))"

text \<open>\<open>confirmed\<close> is the answer to the \<open>confirm(...)\<close> dialog.\<close>

definition handleDeleteProject ::
  "error option \<Rightarrow> bool \<Rightarrow> client \<Rightarrow> store \<Rightarrow> doc_id \<Rightarrow> outcome" where
  "handleDeleteProject fault confirmed c st projectId =
     (case user c of
        None \<Rightarrow> (c, st, [])
      | Some u \<Rightarrow>
          if confirmed then
            (case deleteDoc fault st projectId of
               Inr st' \<Rightarrow>
                 (if map_option fst (selectedProject c) = Some projectId
                  then c\<lparr>selectedProject := None\<rparr> else c, st', [])
             | Inl e \<Rightarrow> (c, st, [ConsoleError e]))
          else (c, st, []))"

definition handleUpdateProfile ::
  "error option \<Rightarrow> client \<Rightarrow> store \<Rightarrow> string \<Rightarrow> string \<Rightarrow> outcome" where
  "handleUpdateProfile fault c st n r =
     (case user c of
        None \<Rightarrow> (c, st, [])
      | Some u \<Rightarrow>
          (case updateDoc_user fault st u [Name n, Role r] of
             Inr st' \<Rightarrow> (c, st', [AlertProfileUpdated])
           | Inl e \<Rightarrow> (c, st, [ConsoleError e])))"

section \<open>Views: the intents they emit\<close>

text \<open>
  \<open>ProjectListView\<close>: \<open>onSelect\<close> opens a project of the list (the object itself becomes
  \<open>selectedProject\<close>), \<open>handleSubmit\<close> refuses an empty title and otherwise calls
  \<open>onCreate\<close>.
\<close>

definition onSelect :: "client \<Rightarrow> doc_id \<times> project_doc \<Rightarrow> client" where
  "onSelect c p = c\<lparr>selectedProject := Some p, activeTab := Detail\<rparr>"

definition onBack :: "client \<Rightarrow> client" where
  "onBack c = c\<lparr>activeTab := Projects, selectedProject := None\<rparr>"

text \<open>
  The buttons of the sidebar: dashboard, projects and team set the tab and clear the
  selection, the settings button sets the tab only. No button leads to the detail tab.
\<close>

definition navigate :: "client \<Rightarrow> tab \<Rightarrow> client" where
  "navigate c t =
     (case t of
        Dashboard \<Rightarrow> c\<lparr>activeTab := Dashboard, selectedProject := None\<rparr>
      | Projects \<Rightarrow> c\<lparr>activeTab := Projects, selectedProject := None\<rparr>
      | Team \<Rightarrow> c\<lparr>activeTab := Team, selectedProject := None\<rparr>
      | Settings \<Rightarrow> c\<lparr>activeTab := Settings\<rparr>
      | Detail \<Rightarrow> c)"

text \<open>
  \<open>ProjectDetailView\<close> is rendered for \<open>activeTab === 'detail' && selectedProject\<close>, with
  \<open>project = selectedProject\<close> and \<open>currentUser = userData\<close>. Its delete button exists
  only for \<open>currentUser?.role === 'MANAGER'\<close>; a click on it calls
  \<open>onDelete(project.id)\<close>.
\<close>

definition detail_rendered :: "client \<Rightarrow> (doc_id \<times> project_doc) option" where
  "detail_rendered c = (if activeTab c = Detail then selectedProject c else None)"

definition delete_button_rendered :: "profile option \<Rightarrow> bool" where
  "delete_button_rendered currentUser =
     (case currentUser of None \<Rightarrow> False | Some p \<Rightarrow> role p = ''MANAGER'')"

definition detail_delete_click :: "error option \<Rightarrow> bool \<Rightarrow> client \<Rightarrow> store \<Rightarrow> outcome" where
  "detail_delete_click fault confirmed c st =
     (case detail_rendered c of
        None \<Rightarrow> (c, st, [])
      | Some project \<Rightarrow>
          if delete_button_rendered (userData c)
          then handleDeleteProject fault confirmed c st (fst project)
          else (c, st, []))"

text \<open>A click on a status button: \<open>onUpdateStatus(project.id, s)\<close>.\<close>

definition detail_status_click ::
  "error option \<Rightarrow> int \<Rightarrow> client \<Rightarrow> store \<Rightarrow> string \<Rightarrow> outcome" where
  "detail_status_click fault now c st s =
     (case detail_rendered c of
        None \<Rightarrow> (c, st, [])
      | Some project \<Rightarrow> handleUpdateStatus fault now c st (fst project) s)"

text \<open>
  \<open>handleFileSubmit\<close> of the detail view: an empty url or name is refused with an alert,
  otherwise \<open>onAddFile(project.id, { name, url, format }, uploadType)\<close>.
\<close>

definition handleFileSubmit ::
  "error option \<Rightarrow> string \<Rightarrow> string \<Rightarrow> int \<Rightarrow> client \<Rightarrow> store \<Rightarrow>
   file_data \<Rightarrow> list_name \<Rightarrow> outcome" where
  "handleFileSubmit fault uuid clock now c st fileData uploadType =
     (case detail_rendered c of
        None \<Rightarrow> (c, st, [])
      | Some project \<Rightarrow>
          if url fileData = [] \<or> name fileData = [] then (c, st, [AlertIncomplete])
          else handleAddFile fault uuid clock now c st (fst project) fileData uploadType)"

definition handleSubmit ::
  "error option \<Rightarrow> doc_id \<Rightarrow> int \<Rightarrow> client \<Rightarrow> store \<Rightarrow> project_data \<Rightarrow> outcome" where
  "handleSubmit fault new_id now c st newProject =
     (if activeTab c \<noteq> Projects then (c, st, [])
      else if data_title newProject = [] then (c, st, [AlertEmptyTitle])
      else handleCreateProject fault new_id now c st newProject)"

section \<open>Live subscriptions\<close>

text \<open>
  \<open>Array.prototype.sort\<close> with a comparator: a stable sort that puts \<open>a\<close> before
  \<open>b\<close> when \<open>cmp a b\<close> is negative and keeps the order of elements that compare equal.
\<close>

fun insert_sorted :: "('a \<Rightarrow> 'a \<Rightarrow> int) \<Rightarrow> 'a \<Rightarrow> 'a list \<Rightarrow> 'a list" where
  "insert_sorted cmp x [] = [x]"
| "insert_sorted cmp x (y # ys) =
     (if cmp x y \<le> 0 then x # y # ys else y # insert_sorted cmp x ys)"

definition js_sort :: "('a \<Rightarrow> 'a \<Rightarrow> int) \<Rightarrow> 'a list \<Rightarrow> 'a list" where
  "js_sort cmp xs = foldr (insert_sorted cmp) xs []"

text \<open>\<open>t?.seconds || 0\<close>: absent, or without a \<open>seconds\<close> field, counts as 0.\<close>

fun seconds_or_0 :: "timestamp option \<Rightarrow> int" where
  "seconds_or_0 (Some (Timestamp s)) = s"
| "seconds_or_0 (Some ServerTimestamp) = 0"
| "seconds_or_0 None = 0"

definition by_updatedAt_desc :: "doc_id \<times> project_doc \<Rightarrow> doc_id \<times> project_doc \<Rightarrow> int" where
  "by_updatedAt_desc a b = seconds_or_0 (updatedAt (snd b)) - seconds_or_0 (updatedAt (snd a))"

text \<open>
  The callback of the projects subscription: \<open>docs\<close> are the documents of the snapshot
  with their ids, in the snapshot's order.
\<close>

definition projects_onSnapshot :: "client \<Rightarrow> (doc_id \<times> project_doc) list \<Rightarrow> client" where
  "projects_onSnapshot c docs = c\<lparr>projects := js_sort by_updatedAt_desc docs\<rparr>"

definition users_onSnapshot :: "client \<Rightarrow> (uid \<rightharpoonup> profile) \<Rightarrow> client" where
  "users_onSnapshot c docs = c\<lparr>usersMap := docs\<rparr>"

section \<open>Identity\<close>

text \<open>
  \<open>initAuth\<close>. \<open>token\<close> is \<open>__initial_auth_token\<close> (\<open>None\<close> when undefined); the auth
  service answers the \<open>n\<close>-th sign-in call of the run with an identity or an error.
\<close>

datatype auth_call = SignInWithCustomToken string | SignInAnonymously

type_synonym auth_service = "nat \<Rightarrow> auth_call \<Rightarrow> error + uid"

definition initAuth :: "string option \<Rightarrow> auth_service \<Rightarrow> auth_call list \<times> uid option \<times> effect list" where
  "initAuth token svc =
     (let first = (case token of
                     None \<Rightarrow> SignInAnonymously
                   | Some t \<Rightarrow> if t \<noteq> [] then SignInWithCustomToken t else SignInAnonymously)
      in case svc 0 first of
           Inr u \<Rightarrow> ([first], Some u, [])
         | Inl e \<Rightarrow>
             (case svc 1 SignInAnonymously of
                Inr u \<Rightarrow> ([first, SignInAnonymously], Some u, [ConsoleError e])
              | Inl anonErr \<Rightarrow>
                  ([first, SignInAnonymously], None, [ConsoleError e, ConsoleError anonErr])))"

definition defaultProfile :: "uid \<Rightarrow> profile" where
  "defaultProfile u =
     \<lparr>uid = u,
      profile_name = ''User-'' @ take 4 u,
      role = ''GUEST'',
      avatar = ''https://api.dicebear.com/7.x/avataaars/svg?seed='' @ u,
      joinedAt = ServerTimestamp\<rparr>"

text \<open>
  The callback of the profile subscription of \<open>currentUser\<close>: \<open>docSnap\<close> is the profile
  document, \<open>None\<close> when it does not exist. The \<open>setDoc\<close> is not awaited: a rejection
  is an unhandled one and the local profile is set all the same.
\<close>

definition profile_onSnapshot ::
  "error option \<Rightarrow> int \<Rightarrow> client \<Rightarrow> store \<Rightarrow> uid \<Rightarrow> profile option \<Rightarrow> outcome" where
  "profile_onSnapshot fault now c st currentUser docSnap =
     (case docSnap of
        Some p \<Rightarrow> (c\<lparr>userData := Some p\<rparr>, st, [])
      | None \<Rightarrow>
          (case setDoc_user fault st currentUser now (defaultProfile currentUser) of
             Inr st' \<Rightarrow> (c\<lparr>userData := Some (defaultProfile currentUser)\<rparr>, st', [])
           | Inl e \<Rightarrow>
               (c\<lparr>userData := Some (defaultProfile currentUser)\<rparr>, st, [UnhandledRejection e])))"

subsection \<open>Subscriptions and their release\<close>

text \<open>
  What \<open>onAuthStateChanged\<close> and \<open>onSnapshot\<close> register at the services. Each
  registration gets a handle; the function that \<open>onSnapshot\<close> returns releases exactly
  that handle.
\<close>

datatype listener = AuthListener | ProjectsListener | UsersListener | ProfileListener uid

record registry =
  active :: "(nat \<times> listener) list"
  next_handle :: nat

definition subscribe :: "registry \<Rightarrow> listener \<Rightarrow> nat \<times> registry" where
  "subscribe r l =
     (next_handle r, \<lparr>active = active r @ [(next_handle r, l)], next_handle = Suc (next_handle r)\<rparr>)"

definition unsubscribe :: "registry \<Rightarrow> nat \<Rightarrow> registry" where
  "unsubscribe r h = r\<lparr>active := filter (\<lambda>e. fst e \<noteq> h) (active r)\<rparr>"

definition listening :: "registry \<Rightarrow> listener \<Rightarrow> bool" where
  "listening r l = (l \<in> snd ` set (active r))"

text \<open>
  The mounted component: its state, the registry of the services, and the cleanup
  functions that the two effects returned (the handles they will release).
\<close>

record app =
  cl :: client
  reg :: registry
  auth_cleanup :: "nat option"
  data_cleanup :: "(nat \<times> nat) option"

text \<open>
  The effect with dependency \<open>[user]\<close>: the previous run's cleanup first, then
  \<open>if (!user) return\<close>, else both collection subscriptions.
\<close>

definition run_data_effect :: "app \<Rightarrow> app" where
  "run_data_effect a =
     (let r0 = (case data_cleanup a of
                  None \<Rightarrow> reg a
                | Some (unsubProjects, unsubUsers) \<Rightarrow>
                    unsubscribe (unsubscribe (reg a) unsubProjects) unsubUsers)
      in case user (cl a) of
           None \<Rightarrow> a\<lparr>reg := r0, data_cleanup := None\<rparr>
         | Some u \<Rightarrow>
             (let (unsubProjects, r1) = subscribe r0 ProjectsListener;
                  (unsubUsers, r2) = subscribe r1 UsersListener
              in a\<lparr>reg := r2, data_cleanup := Some (unsubProjects, unsubUsers)\<rparr>))"

definition mount :: app where
  "mount =
     (let (unsubscribe_auth, r) = subscribe \<lparr>active = [], next_handle = 0\<rparr> AuthListener
      in run_data_effect
           \<lparr>cl = initial_client, reg = r, auth_cleanup = Some unsubscribe_auth,
            data_cleanup = None\<rparr>)"

text \<open>
  The callback of \<open>onAuthStateChanged\<close>, delivered only while the auth listener is
  registered. The handle of the profile subscription is dropped. A changed \<open>user\<close>
  re-runs the data effect.
\<close>

definition auth_state_changed :: "app \<Rightarrow> uid option \<Rightarrow> app" where
  "auth_state_changed a currentUser =
     (if \<not> listening (reg a) AuthListener then a
      else
        let r = (case currentUser of
                   None \<Rightarrow> reg a
                 | Some u \<Rightarrow> snd (subscribe (reg a) (ProfileListener u)));
            a' = a\<lparr>cl := (cl a)\<lparr>user := currentUser, loading := False\<rparr>, reg := r\<rparr>
        in if user (cl a) = currentUser then a' else run_data_effect a')"

definition unmount :: "app \<Rightarrow> app" where
  "unmount a =
     (let r0 = (case auth_cleanup a of None \<Rightarrow> reg a | Some h \<Rightarrow> unsubscribe (reg a) h);
          r1 = (case data_cleanup a of
                  None \<Rightarrow> r0
                | Some (unsubProjects, unsubUsers) \<Rightarrow>
                    unsubscribe (unsubscribe r0 unsubProjects) unsubUsers)
      in a\<lparr>reg := r1, auth_cleanup := None, data_cleanup := None\<rparr>)"

text \<open>
  A change of the profile document of \<open>u\<close> reaches the component exactly when a
  profile listener for \<open>u\<close> is still registered.
\<close>

definition profile_changed ::
  "error option \<Rightarrow> int \<Rightarrow> app \<Rightarrow> store \<Rightarrow> uid \<Rightarrow> app \<times> store \<times> effect list" where
  "profile_changed fault now a st u =
     (if listening (reg a) (ProfileListener u)
      then (case profile_onSnapshot fault now (cl a) st u (users_col st u) of
              (c', st', out) \<Rightarrow> (a\<lparr>cl := c'\<rparr>, st', out))
      else (a, st, []))"

section \<open>Projections of the dashboard\<close>

record stats =
  total :: nat
  pending :: nat
  inProgress :: nat
  completed :: nat

definition dashboard_stats :: "(doc_id \<times> project_doc) list \<Rightarrow> stats" where
  "dashboard_stats ps =
     \<lparr>total = length ps,
      pending = length (filter (\<lambda>p. status (snd p) = ''pending'') ps),
      inProgress = length (filter (\<lambda>p. status (snd p) = ''in_progress''
                                         \<or> status (snd p) = ''review'') ps),
      completed = length (filter (\<lambda>p. status (snd p) = ''completed'') ps)\<rparr>"

text \<open>The activity feed: \<open>projects.slice(0, 4)\<close>.\<close>

definition recent_activity :: "(doc_id \<times> project_doc) list \<Rightarrow> (doc_id \<times> project_doc) list" where
  "recent_activity ps = take 4 ps"

section \<open>Runs of clients against the store\<close>

text \<open>
  What a client does, one step at a time: the four mutations through their handlers and
  views, the sidebar, opening and closing a project in the list view, and the delivery of a projects
  snapshot (the collection as the store holds it at that moment) to the subscription,
  which exists while a user is signed in.
\<close>

datatype action =
    CreateProject "error option" doc_id int project_data
  | SetStatus "error option" int doc_id string
  | AppendFile "error option" string string int file_data list_name
  | UpdateProfile "error option" string string
  | Navigate tab
  | OpenProject nat
  | CloseProject
  | Refresh

type_synonym world = "client \<times> store"

fun perform :: "action \<Rightarrow> world \<Rightarrow> world" where
  "perform (CreateProject fault new_id now data) (c, st) =
     (case handleCreateProject fault new_id now c st data of (c', st', out) \<Rightarrow> (c', st'))"
| "perform (SetStatus fault now projectId s) (c, st) =
     (case handleUpdateStatus fault now c st projectId s of (c', st', out) \<Rightarrow> (c', st'))"
| "perform (AppendFile fault uuid clock now fileData uploadType) (c, st) =
     (case handleFileSubmit fault uuid clock now c st fileData uploadType of
        (c', st', out) \<Rightarrow> (c', st'))"
| "perform (UpdateProfile fault n r) (c, st) =
     (case handleUpdateProfile fault c st n r of (c', st', out) \<Rightarrow> (c', st'))"
| "perform (Navigate t) (c, st) = (navigate c t, st)"
| "perform (OpenProject i) (c, st) =
     (if activeTab c = Projects \<and> i < length (projects c)
      then (onSelect c (projects c ! i), st) else (c, st))"
| "perform CloseProject (c, st) =
     (case detail_rendered c of
        None \<Rightarrow> (c, st)
      | Some project \<Rightarrow> (onBack c, st))"
| "perform Refresh (c, st) =
     (case user c of
        None \<Rightarrow> (c, st)
      | Some u \<Rightarrow> (projects_onSnapshot c (projects_col st), st))"

definition run :: "action list \<Rightarrow> world \<Rightarrow> world" where
  "run acts w = fold perform acts w"

text \<open>The id that the store generates for a new document is not in use.\<close>

fun generated_id_unused :: "action \<Rightarrow> world \<Rightarrow> bool" where
  "generated_id_unused (CreateProject fault new_id now data) (c, st) =
     (new_id \<notin> fst ` set (projects_col st))"
| "generated_id_unused _ _ = True"

fun generated_ids_unused :: "action list \<Rightarrow> world \<Rightarrow> bool" where
  "generated_ids_unused [] w = True"
| "generated_ids_unused (a # acts) w =
     (generated_id_unused a w \<and> generated_ids_unused acts (perform a w))"

text \<open>Several clients on one store: each step is one client's action.\<close>

definition perform_as :: "nat \<times> action \<Rightarrow> client list \<times> store \<Rightarrow> client list \<times> store" where
  "perform_as ka w =
     (case (ka, w) of
        ((k, a), (cs, st)) \<Rightarrow>
          if k < length cs
          then (case perform a (cs ! k, st) of (c', st') \<Rightarrow> (cs[k := c'], st'))
          else (cs, st))"

definition run_clients :: "(nat \<times> action) list \<Rightarrow> client list \<times> store \<Rightarrow> client list \<times> store" where
  "run_clients acts w = fold perform_as acts w"

text \<open>The length of a file list of a stored project, \<open>None\<close> when there is no such project.\<close>

definition stored_length :: "store \<Rightarrow> doc_id \<Rightarrow> list_name \<Rightarrow> nat option" where
  "stored_length st pid l = map_option (\<lambda>d. length (file_list l d)) (get_project st pid)"

definition stored_files :: "store \<Rightarrow> doc_id \<Rightarrow> list_name \<Rightarrow> attachment list option" where
  "stored_files st pid l = map_option (file_list l) (get_project st pid)"

definition stored_status :: "store \<Rightarrow> doc_id \<Rightarrow> string option" where
  "stored_status st pid = map_option status (get_project st pid)"

text \<open>A sequence of \<open>handleUpdateStatus\<close> calls on one project, each with its own outcome
  at the service, server time and argument.\<close>

fun updateStatus_calls ::
  "(error option \<times> int \<times> string) list \<Rightarrow> client \<Rightarrow> store \<Rightarrow> doc_id \<Rightarrow> store" where
  "updateStatus_calls [] c st projectId = st"
| "updateStatus_calls ((fault, now, s) # calls) c st projectId =
     (case handleUpdateStatus fault now c st projectId s of
        (c', st', out) \<Rightarrow> updateStatus_calls calls c' st' projectId)"

section \<open>Orders and bounds used in the statements\<close>

text \<open>The list is in descending order of \<open>updatedAt?.seconds || 0\<close>.\<close>

definition sorted_by_updatedAt_desc :: "(doc_id \<times> project_doc) list \<Rightarrow> bool" where
  "sorted_by_updatedAt_desc ps =
     sorted_wrt (\<lambda>a b. seconds_or_0 (updatedAt (snd b)) \<le> seconds_or_0 (updatedAt (snd a))) ps"

text \<open>No document without \<open>updatedAt\<close> comes before a document that has one.\<close>

definition undated_after_dated :: "(doc_id \<times> project_doc) list \<Rightarrow> bool" where
  "undated_after_dated ps =
     sorted_wrt (\<lambda>a b. \<not> (updatedAt (snd a) = None \<and> updatedAt (snd b) \<noteq> None)) ps"

text \<open>No document without \<open>updatedAt\<close> comes before a document updated after the epoch.\<close>

definition undated_after_positive :: "(doc_id \<times> project_doc) list \<Rightarrow> bool" where
  "undated_after_positive ps =
     sorted_wrt (\<lambda>a b. \<not> (updatedAt (snd a) = None \<and> 0 < seconds_or_0 (updatedAt (snd b)))) ps"

text \<open>
  A cached copy \<open>d\<close> of the project \<open>i\<close> is near the store when the project is
  stored and each of its file lists is at least as long as the copy's and at most one
  longer.
\<close>

definition near :: "store \<Rightarrow> doc_id \<Rightarrow> project_doc \<Rightarrow> bool" where
  "near st i d =
     (\<exists>d'. get_project st i = Some d'
          \<and> (\<forall>l. length (file_list l d) \<le> length (file_list l d')
                 \<and> length (file_list l d') \<le> Suc (length (file_list l d))))"

text \<open>
  The invariant of a client that is the only writer: ids are unique in the store and in
  the client's list, every listed project and the open one are near the store, and the
  open copy is not longer than the listed one.
\<close>

definition in_step :: "world \<Rightarrow> bool" where
  "in_step w =
     (case w of (c, st) \<Rightarrow>
        distinct (map fst (projects_col st))
      \<and> distinct (map fst (projects c))
      \<and> (\<forall>i d. (i, d) \<in> set (projects c) \<longrightarrow> near st i d)
      \<and> (\<forall>i ds. selectedProject c = Some (i, ds) \<longrightarrow>
            near st i ds
            \<and> (\<forall>d l. (i, d) \<in> set (projects c) \<longrightarrow>
                  length (file_list l ds) \<le> length (file_list l d))))"

text \<open>No stored file list of \<open>st\<close> is shorter, or gone, in \<open>st'\<close>.\<close>

definition grows :: "store \<Rightarrow> store \<Rightarrow> bool" where
  "grows st st' =
     (\<forall>pid l n. stored_length st pid l = Some n \<longrightarrow>
        (\<exists>m. stored_length st' pid l = Some m \<and> n \<le> m))"

section \<open>Example data\<close>

definition empty_store :: store where
  "empty_store = \<lparr>projects_col = [], users_col = Map.empty\<rparr>"

definition signed_in :: "uid \<Rightarrow> client" where
  "signed_in u = initial_client\<lparr>user := Some u, loading := False\<rparr>"

definition guest_profile :: profile where
  "guest_profile = defaultProfile ''u123456''"

definition sample_data :: project_data where
  "sample_data = \<lparr>data_title = ''Watch case'', data_description = ''Aluminium''\<rparr>"

definition file_f :: file_data where
  "file_f = \<lparr>name = ''f.pdf'', url = ''https://example.org/f.pdf'', format = ''doc''\<rparr>"

definition file_g :: file_data where
  "file_g = \<lparr>name = ''g.png'', url = ''https://example.org/g.png'', format = ''image''\<rparr>"

definition file_h :: file_data where
  "file_h = \<lparr>name = ''h.stp'', url = ''https://example.org/h.stp'', format = ''stp''\<rparr>"

definition sample_doc :: "string \<Rightarrow> timestamp option \<Rightarrow> project_doc" where
  "sample_doc s t =
     \<lparr>title = ''T'', description = ''D'', createdBy = ''u1'', createdAt = t, updatedAt = t,
      status = s, inputs = Some [], outputs = Some [], comments = []\<rparr>"

definition one_project_store :: store where
  "one_project_store =
     \<lparr>projects_col = [(''p1'', sample_doc ''pending'' (Some (Timestamp 10)))],
      users_col = Map.empty\<rparr>"

definition guest_in_detail :: client where
  "guest_in_detail =
     onSelect ((signed_in ''u123456'')\<lparr>userData := Some guest_profile\<rparr>)
       (''p1'', sample_doc ''pending'' (Some (Timestamp 10)))"

definition undated_then_epoch :: "(doc_id \<times> project_doc) list" where
  "undated_then_epoch =
     [(''a'', sample_doc ''pending'' None), (''b'', sample_doc ''pending'' (Some (Timestamp 0)))]"

definition three_docs :: "(doc_id \<times> project_doc) list" where
  "three_docs =
     [(''a'', sample_doc ''pending'' None),
      (''b'', sample_doc ''review'' (Some (Timestamp 50))),
      (''c'', sample_doc ''completed'' (Some (Timestamp 100)))]"

text \<open>
  Two clients on the store with one project. Client 0 opens the project; client 1 opens
  it, appends \<open>f\<close>, reopens it from its refreshed list and appends \<open>g\<close>; client 0 then
  appends \<open>h\<close> from the copy it opened.
\<close>

definition two_clients :: "client list \<times> store" where
  "two_clients = ([signed_in ''uA'', signed_in ''uB''], one_project_store)"

definition stale_append :: "(nat \<times> action) list" where
  "stale_append =
     [(0, Navigate Projects), (0, Refresh), (0, OpenProject 0),
      (1, Navigate Projects), (1, Refresh), (1, OpenProject 0),
      (1, AppendFile None ''id-f'' ''2024-01-01T00:00:20.000Z'' 20 file_f Inputs),
      (1, Refresh), (1, CloseProject), (1, OpenProject 0),
      (1, AppendFile None ''id-g'' ''2024-01-01T00:00:30.000Z'' 30 file_g Inputs),
      (0, AppendFile None ''id-h'' ''2024-01-01T00:00:40.000Z'' 40 file_h Inputs)]"

text \<open>
  A client signed in as \<open>u123456\<close> whose cached profile \<open>userData\<close> is the
  \<open>MANAGER\<close> profile of another user, with the project open.
\<close>

definition manager_profile :: profile where
  "manager_profile = (defaultProfile ''uM'')\<lparr>role := ''MANAGER''\<rparr>"

definition cached_manager_in_detail :: client where
  "cached_manager_in_detail =
     onSelect ((signed_in ''u123456'')\<lparr>userData := Some manager_profile\<rparr>)
       (''p1'', sample_doc ''pending'' (Some (Timestamp 10)))"

definition two_appends :: "action list" where
  "two_appends =
     [Navigate Projects, CreateProject None ''p1'' 10 sample_data, Refresh, OpenProject 0,
      AppendFile None ''id-f'' ''2024-01-01T00:00:20.000Z'' 20 file_f Inputs, Refresh,
      AppendFile None ''id-g'' ''2024-01-01T00:00:30.000Z'' 30 file_g Inputs, Refresh]"

definition three_status_calls :: "(error option \<times> int \<times> string) list" where
  "three_status_calls =
     [(None, 20, ''completed''), (Some TransportFailure, 30, ''review''), (None, 40, ''pending'')]"

definition token_rejecting_service :: auth_service where
  "token_rejecting_service n call =
     (case call of
        SignInWithCustomToken t \<Rightarrow> Inl AuthFailure
      | SignInAnonymously \<Rightarrow> Inr ''anon42'')"

section \<open>Unfolding the model\<close>

lemmas store_ops = addDoc_def updateDoc_project_def deleteDoc_def setDoc_user_def
  updateDoc_user_def get_project_def resolve_project_def resolve_profile_def

lemmas handlers = handleCreateProject_def handleUpdateStatus_def handleAddFile_def
  handleDeleteProject_def handleUpdateProfile_def handleFileSubmit_def detail_rendered_def
  onSelect_def onBack_def navigate_def projects_onSnapshot_def js_sort_def by_updatedAt_desc_def

lemmas examples = signed_in_def initial_client_def empty_store_def sample_data_def
  file_f_def file_g_def file_h_def sample_doc_def one_project_store_def guest_profile_def
  defaultProfile_def

lemmas subscriptions = mount_def auth_state_changed_def unmount_def run_data_effect_def
  subscribe_def unsubscribe_def listening_def profile_changed_def profile_onSnapshot_def

section \<open>Creating a project\<close>

text \<open>
  C3. For every title and description and every resolved identity, the document that
  \<open>handleCreateProject\<close> writes has status \<open>pending\<close>, empty \<open>inputs\<close> and
  \<open>outputs\<close>, and \<open>createdAt\<close> equal to \<open>updatedAt\<close>: both are the server's clock at
  the write.
\<close>

theorem createProject_initial_document:
  assumes "user c = Some u"
    and "handleCreateProject None new_id now c st data = (c', st', out)"
  shows "\<exists>d. get_project st' new_id = Some d
           \<and> status d = ''pending''
           \<and> inputs d = Some [] \<and> outputs d = Some []
           \<and> createdAt d = Some (Timestamp now)
           \<and> createdAt d = updatedAt d
           \<and> title d = data_title data \<and> description d = data_description data
           \<and> createdBy d = u"
  using assms
  by (auto simp: handleCreateProject_def addDoc_def get_project_def resolve_project_def
      update_conv')

theorem createProject_initial_document_witness:
  "user (signed_in ''u1'') = Some ''u1''
   \<and> stored_status (fst (snd (handleCreateProject None ''p1'' 10 (signed_in ''u1'') empty_store
         sample_data))) ''p1'' = Some ''pending''"
  using createProject_initial_document [of "signed_in ''u1''" "''u1''" "''p1''" 10 empty_store
      sample_data "fst (handleCreateProject None ''p1'' 10 (signed_in ''u1'') empty_store sample_data)"
      "fst (snd (handleCreateProject None ''p1'' 10 (signed_in ''u1'') empty_store sample_data))"
      "snd (snd (handleCreateProject None ''p1'' 10 (signed_in ''u1'') empty_store sample_data))"]
  by (auto simp: signed_in_def initial_client_def stored_status_def)

section \<open>Appending a file without a selection or an identity\<close>

text \<open>
  C10. \<open>handleAddFile\<close> does nothing when no project is selected in the client or no
  identity is signed in: the client and the store are unchanged and nothing is shown or
  logged, whatever \<open>projectId\<close> is passed and however the store would have answered.
\<close>

theorem handleAddFile_silent_without_selection_or_user:
  assumes "selectedProject c = None \<or> user c = None"
  shows "handleAddFile fault uuid clock now c st projectId fileData type = (c, st, [])"
  using assms
  by (auto simp: handleAddFile_def split: option.splits)

theorem handleAddFile_silent_without_selection_or_user_witness:
  "(selectedProject (signed_in ''u1'') = None \<or> user (signed_in ''u1'') = None)
   \<and> handleAddFile None ''id-f'' ''2024-01-01T00:00:00.000Z'' 20 (signed_in ''u1'')
         one_project_store ''p1'' file_f Inputs
       = (signed_in ''u1'', one_project_store, [])"
  using handleAddFile_silent_without_selection_or_user [of "signed_in ''u1''" None "''id-f''"
      "''2024-01-01T00:00:00.000Z''" 20 one_project_store "''p1''" file_f Inputs]
  by (simp add: signed_in_def initial_client_def)

section \<open>Setting the status\<close>

lemma handleUpdateStatus_client:
  "handleUpdateStatus fault now c st pid s = (c', st', out) \<Longrightarrow> c' = c"
  by (auto simp: handleUpdateStatus_def split: option.splits sum.splits)

lemma updateDoc_project_keeps:
  "updateDoc_project fault st pid now fs = Inr st' \<Longrightarrow> get_project st q \<noteq> None
   \<Longrightarrow> get_project st' q \<noteq> None"
  by (auto simp: updateDoc_project_def get_project_def update_conv' split: option.splits)

lemma handleUpdateStatus_keeps:
  "handleUpdateStatus fault now c st pid s = (c', st', out) \<Longrightarrow> get_project st q \<noteq> None
   \<Longrightarrow> get_project st' q \<noteq> None"
  by (auto simp: handleUpdateStatus_def split: option.splits sum.splits
      dest: updateDoc_project_keeps)

lemma handleUpdateStatus_writes:
  "user c = Some u \<Longrightarrow> get_project st pid \<noteq> None
   \<Longrightarrow> handleUpdateStatus None now c st pid s = (c', st', out)
   \<Longrightarrow> stored_status st' pid = Some s"
  by (auto simp: handleUpdateStatus_def updateDoc_project_def get_project_def update_conv'
      stored_status_def resolve_project_def split: option.splits sum.splits)

text \<open>
  C4. For every stored project, signed-in client and non-empty sequence of
  \<open>handleUpdateStatus\<close> calls on the project, the stored status after the sequence is the
  argument of the last call, provided the store accepted that last call. Neither the
  status the project had nor the arguments and outcomes of the earlier calls matter, and
  the argument is any string: no transition table is consulted.
\<close>

theorem setStatus_last_call_wins:
  assumes "user c = Some u" and "get_project st pid \<noteq> None"
    and "calls \<noteq> []" and "fst (last calls) = None"
  shows "stored_status (updateStatus_calls calls c st pid) pid = Some (snd (snd (last calls)))"
  using assms
proof (induction calls arbitrary: st)
  case Nil
  then show ?case by simp
next
  case (Cons call calls)
  obtain fault now s where call: "call = (fault, now, s)" by (cases call)
  obtain c' st' out where h: "handleUpdateStatus fault now c st pid s = (c', st', out)"
    by (cases "handleUpdateStatus fault now c st pid s")
  have c': "c' = c" using h by (rule handleUpdateStatus_client)
  have ex: "get_project st' pid \<noteq> None"
    using h Cons.prems(2) by (rule handleUpdateStatus_keeps)
  show ?case
  proof (cases "calls = []")
    case True
    with Cons.prems call have "fault = None" by simp
    with h Cons.prems have "stored_status st' pid = Some s"
      using handleUpdateStatus_writes by blast
    with True call h show ?thesis by simp
  next
    case False
    with Cons.IH [of st'] Cons.prems ex c' have
      "stored_status (updateStatus_calls calls c st' pid) pid = Some (snd (snd (last calls)))"
      by simp
    with False call h c' show ?thesis by simp
  qed
qed

theorem setStatus_last_call_wins_witness:
  "user (signed_in ''u1'') = Some ''u1''
   \<and> get_project one_project_store ''p1'' \<noteq> None
   \<and> three_status_calls \<noteq> []
   \<and> fst (last three_status_calls) = None
   \<and> stored_status (updateStatus_calls three_status_calls (signed_in ''u1'') one_project_store ''p1'')
        ''p1'' = Some ''pending''"
  using setStatus_last_call_wins [of "signed_in ''u1''" "''u1''" one_project_store "''p1''"
      three_status_calls]
  by (simp add: three_status_calls_def examples get_project_def)

section \<open>The dashboard\<close>

text \<open>
  C7. For the snapshot of two documents, id 1 completed and updated at 100, id 2 pending
  and updated at 50, the dashboard computed from the list that the projects subscription
  stores reports total 2, pending 1, completed 1 (and 0 in progress), and its activity
  feed lists id 1 before id 2.
\<close>

theorem dashboard_of_example_snapshot:
  assumes "status d1 = ''completed''" and "updatedAt d1 = Some (Timestamp 100)"
    and "status d2 = ''pending''" and "updatedAt d2 = Some (Timestamp 50)"
  shows "dashboard_stats (projects (projects_onSnapshot c [(''1'', d1), (''2'', d2)]))
           = \<lparr>total = 2, pending = 1, inProgress = 0, completed = 1\<rparr>
         \<and> map fst (recent_activity (projects (projects_onSnapshot c [(''1'', d1), (''2'', d2)])))
           = [''1'', ''2'']"
  using assms
  by (simp add: projects_onSnapshot_def js_sort_def by_updatedAt_desc_def dashboard_stats_def
      recent_activity_def)

theorem dashboard_of_example_snapshot_witness:
  "status (sample_doc ''completed'' (Some (Timestamp 100))) = ''completed''
   \<and> updatedAt (sample_doc ''completed'' (Some (Timestamp 100))) = Some (Timestamp 100)
   \<and> status (sample_doc ''pending'' (Some (Timestamp 50))) = ''pending''
   \<and> updatedAt (sample_doc ''pending'' (Some (Timestamp 50))) = Some (Timestamp 50)
   \<and> total (dashboard_stats (projects (projects_onSnapshot initial_client
        [(''1'', sample_doc ''completed'' (Some (Timestamp 100))),
         (''2'', sample_doc ''pending'' (Some (Timestamp 50)))]))) = 2"
  using dashboard_of_example_snapshot [of "sample_doc ''completed'' (Some (Timestamp 100))"
      "sample_doc ''pending'' (Some (Timestamp 50))" initial_client]
  by (simp add: sample_doc_def)

section \<open>Resolving the identity\<close>

text \<open>
  C9. With a bootstrap token, \<open>initAuth\<close> signs in with the token first; if the auth
  service rejects that call, with whatever error, it signs in anonymously next. Once an
  identity \<open>u\<close> is reported, the component listens to the profile document of \<open>u\<close>,
  and when the document does not exist it writes one with the name \<open>User-\<close> followed by
  the first four characters of \<open>u\<close>, the role \<open>GUEST\<close> and the avatar URL ending in
  \<open>u\<close>.
\<close>

theorem identity_resolution:
  assumes "t \<noteq> []"
  shows "(\<forall>u. svc 0 (SignInWithCustomToken t) = Inr u \<longrightarrow>
            initAuth (Some t) svc = ([SignInWithCustomToken t], Some u, []))
       \<and> (\<forall>e u. svc 0 (SignInWithCustomToken t) = Inl e \<and> svc 1 SignInAnonymously = Inr u \<longrightarrow>
            initAuth (Some t) svc
              = ([SignInWithCustomToken t, SignInAnonymously], Some u, [ConsoleError e]))
       \<and> (\<forall>u. users_col st u = None \<longrightarrow>
            listening (reg (auth_state_changed mount (Some u))) (ProfileListener u)
            \<and> users_col (fst (snd (profile_changed None now (auth_state_changed mount (Some u)) st u))) u
              = Some \<lparr>uid = u, profile_name = ''User-'' @ take 4 u, role = ''GUEST'',
                      avatar = ''https://api.dicebear.com/7.x/avataaars/svg?seed='' @ u,
                      joinedAt = Timestamp now\<rparr>)"
proof (intro conjI allI impI)
  fix u assume "svc 0 (SignInWithCustomToken t) = Inr u"
  with assms show "initAuth (Some t) svc = ([SignInWithCustomToken t], Some u, [])"
    by (simp add: initAuth_def)
next
  fix e u assume "svc 0 (SignInWithCustomToken t) = Inl e \<and> svc 1 SignInAnonymously = Inr u"
  with assms show "initAuth (Some t) svc
      = ([SignInWithCustomToken t, SignInAnonymously], Some u, [ConsoleError e])"
    by (simp add: initAuth_def)
next
  fix u assume "users_col st u = None"
  show l: "listening (reg (auth_state_changed mount (Some u))) (ProfileListener u)"
    by (simp add: subscriptions initial_client_def)
  assume n: "users_col st u = None"
  show "users_col (fst (snd (profile_changed None now (auth_state_changed mount (Some u)) st u))) u
              = Some \<lparr>uid = u, profile_name = ''User-'' @ take 4 u, role = ''GUEST'',
                      avatar = ''https://api.dicebear.com/7.x/avataaars/svg?seed='' @ u,
                      joinedAt = Timestamp now\<rparr>"
    using l n by (simp add: profile_changed_def profile_onSnapshot_def store_ops defaultProfile_def)
qed

theorem identity_resolution_witness:
  "''tok'' \<noteq> []
   \<and> initAuth (Some ''tok'') token_rejecting_service
       = ([SignInWithCustomToken ''tok'', SignInAnonymously], Some ''anon42'',
          [ConsoleError AuthFailure])
   \<and> map_option profile_name
        (users_col (fst (snd (profile_changed None 50
            (auth_state_changed mount (Some ''anon42'')) empty_store ''anon42''))) ''anon42'')
       = Some ''User-anon''"
  using identity_resolution [of "''tok''" token_rejecting_service empty_store 50]
  by (simp add: token_rejecting_service_def empty_store_def)

section \<open>Deleting a project\<close>

text \<open>
  C2, as the claim states it, fails: \<open>handleDeleteProject\<close> never reads the role. Called
  for a signed-in user whose profile has the role \<open>GUEST\<close> and who confirms the dialog,
  it removes the document.
\<close>

theorem deleteProject_no_role_check:
  "role guest_profile = ''GUEST''
   \<and> userData guest_in_detail = Some guest_profile
   \<and> stored_status one_project_store ''p1'' = Some ''pending''
   \<and> stored_status (fst (snd (handleDeleteProject None True guest_in_detail one_project_store ''p1'')))
        ''p1'' = None"
  by (simp add: guest_in_detail_def handlers store_ops examples stored_status_def)

text \<open>
  C2, amended. The role is checked in the project detail view, against the profile the
  client has cached in \<open>userData\<close>: the delete button is rendered only when that
  profile's role is \<open>MANAGER\<close>. With any other cached profile, or none, a delete
  through the view issues no store call and leaves client and store unchanged; with a
  cached \<open>MANAGER\<close> profile the click is \<open>handleDeleteProject\<close> on the open project.
  \<open>handleDeleteProject\<close> reads no role: what it does to the store and what it logs do
  not depend on \<open>userData\<close>. Without a signed-in identity, or when the dialog is
  declined, it does nothing; for a signed-in identity that confirms, it removes the document
  and no other when the store accepts the call, and only logs the error when the store
  rejects it.
\<close>

theorem delete_gate_is_in_the_view:
  "(map_option role (userData c) \<noteq> Some ''MANAGER''
      \<longrightarrow> detail_delete_click fault confirmed c st = (c, st, []))
   \<and> (map_option role (userData c) = Some ''MANAGER'' \<and> detail_rendered c = Some project
      \<longrightarrow> detail_delete_click fault confirmed c st
            = handleDeleteProject fault confirmed c st (fst project))
   \<and> (user c = None \<or> \<not> confirmed
      \<longrightarrow> handleDeleteProject fault confirmed c st projectId = (c, st, []))
   \<and> (user c \<noteq> None \<and> confirmed
      \<longrightarrow> get_project (fst (snd (handleDeleteProject None confirmed c st projectId))) projectId = None
          \<and> (\<forall>q. q \<noteq> projectId \<longrightarrow>
                get_project (fst (snd (handleDeleteProject None confirmed c st projectId))) q
                  = get_project st q)
          \<and> handleDeleteProject (Some e) confirmed c st projectId = (c, st, [ConsoleError e]))
   \<and> snd (handleDeleteProject fault confirmed (c\<lparr>userData := cached\<rparr>) st projectId)
       = snd (handleDeleteProject fault confirmed c st projectId)"
proof (intro conjI impI)
  assume "map_option role (userData c) \<noteq> Some ''MANAGER''"
  then show "detail_delete_click fault confirmed c st = (c, st, [])"
    by (auto simp: detail_delete_click_def delete_button_rendered_def split: option.splits)
next
  assume "map_option role (userData c) = Some ''MANAGER'' \<and> detail_rendered c = Some project"
  then show "detail_delete_click fault confirmed c st
      = handleDeleteProject fault confirmed c st (fst project)"
    by (auto simp: detail_delete_click_def delete_button_rendered_def split: option.splits)
next
  assume "user c = None \<or> \<not> confirmed"
  then show "handleDeleteProject fault confirmed c st projectId = (c, st, [])"
    by (auto simp: handleDeleteProject_def split: option.splits)
next
  assume a: "user c \<noteq> None \<and> confirmed"
  then show "get_project (fst (snd (handleDeleteProject None confirmed c st projectId))) projectId
      = None"
    by (auto simp: handleDeleteProject_def deleteDoc_def get_project_def delete_conv')
  from a show "\<forall>q. q \<noteq> projectId \<longrightarrow>
      get_project (fst (snd (handleDeleteProject None confirmed c st projectId))) q
        = get_project st q"
    by (auto simp: handleDeleteProject_def deleteDoc_def get_project_def delete_conv')
  from a show "handleDeleteProject (Some e) confirmed c st projectId = (c, st, [ConsoleError e])"
    by (auto simp: handleDeleteProject_def deleteDoc_def)
next
  show "snd (handleDeleteProject fault confirmed (c\<lparr>userData := cached\<rparr>) st projectId)
       = snd (handleDeleteProject fault confirmed c st projectId)"
    by (auto simp: handleDeleteProject_def deleteDoc_def split: option.splits)
qed

theorem delete_gate_is_in_the_view_witness:
  "map_option role (userData guest_in_detail) \<noteq> Some ''MANAGER''
   \<and> detail_delete_click None True guest_in_detail one_project_store
       = (guest_in_detail, one_project_store, [])
   \<and> map_option role (userData cached_manager_in_detail) = Some ''MANAGER''
   \<and> detail_rendered cached_manager_in_detail
       = Some (''p1'', sample_doc ''pending'' (Some (Timestamp 10)))
   \<and> user cached_manager_in_detail = Some ''u123456''
   \<and> stored_status (fst (snd (detail_delete_click None True cached_manager_in_detail
         one_project_store))) ''p1'' = None
   \<and> (user guest_in_detail = None \<or> \<not> False)
   \<and> handleDeleteProject None False guest_in_detail one_project_store ''p1''
       = (guest_in_detail, one_project_store, [])
   \<and> (user guest_in_detail \<noteq> None \<and> True)
   \<and> get_project (fst (snd (handleDeleteProject None True guest_in_detail one_project_store
         ''p1''))) ''p1'' = None"
  using delete_gate_is_in_the_view [of guest_in_detail None True one_project_store]
    delete_gate_is_in_the_view [of cached_manager_in_detail None True one_project_store
      "(''p1'', sample_doc ''pending'' (Some (Timestamp 10)))" "''p1''"]
    delete_gate_is_in_the_view [of guest_in_detail None False one_project_store _ "''p1''"]
    delete_gate_is_in_the_view [of guest_in_detail None True one_project_store _ "''p1''"]
  by (simp add: guest_in_detail_def cached_manager_in_detail_def manager_profile_def examples
      onSelect_def detail_rendered_def stored_status_def)

section \<open>Releasing subscriptions\<close>

text \<open>
  C8 fails for the profile subscription. After a sign-in as \<open>u1\<close>, unmounting the
  component releases the auth listener and both collection listeners but leaves the
  profile listener registered, and so does a sign-out; a later change of the profile
  document still runs the callback, which even writes the default profile.
\<close>

theorem profile_listener_survives_unmount:
  "active (reg (unmount (auth_state_changed mount (Some ''u1'')))) = [(1, ProfileListener ''u1'')]
   \<and> active (reg (auth_state_changed (auth_state_changed mount (Some ''u1'')) None))
       = [(0, AuthListener), (1, ProfileListener ''u1'')]
   \<and> users_col (fst (snd (profile_changed None 50 (unmount (auth_state_changed mount (Some ''u1'')))
        empty_store ''u1''))) ''u1'' = Some (resolve_profile 50 (defaultProfile ''u1''))"
  by (simp add: subscriptions initial_client_def store_ops empty_store_def)

section \<open>Appending files\<close>

text \<open>
  C1 fails on the code. A single client, the only writer, creates a project, opens it and
  submits the file \<open>f\<close> and then the file \<open>g\<close> to its inputs, receiving the projects
  snapshot after every write. After the first submit the stored inputs are the attachment
  made of \<open>f\<close>; after the second they are the attachment made of \<open>g\<close> alone and not
  the two in order: \<open>selectedProject\<close> is still the object that was opened, and
  \<open>handleAddFile\<close> appends to its list.
\<close>

theorem second_append_overwrites_first:
  "stored_files (snd (run (take 5 two_appends) (signed_in ''u1'', empty_store))) ''p1'' Inputs
     = Some [file_data.extend file_f (attachment.fields ''id-f'' ''u1'' ''2024-01-01T00:00:20.000Z'')]
   \<and> stored_files (snd (run two_appends (signed_in ''u1'', empty_store))) ''p1'' Inputs
     = Some [file_data.extend file_g (attachment.fields ''id-g'' ''u1'' ''2024-01-01T00:00:30.000Z'')]"
  by (simp add: two_appends_def run_def handlers store_ops examples stored_files_def)

section \<open>The order of the projects list\<close>

lemma mset_insert_sorted: "mset (insert_sorted cmp x ys) = add_mset x (mset ys)"
  by (induction ys) auto

lemma mset_js_sort: "mset (js_sort cmp xs) = mset xs"
  by (induction xs) (auto simp: js_sort_def mset_insert_sorted)

lemma set_insert_sorted: "set (insert_sorted cmp x ys) = insert x (set ys)"
  by (induction ys) auto

lemma set_js_sort: "set (js_sort cmp xs) = set xs"
  by (induction xs) (auto simp: js_sort_def set_insert_sorted)

lemma sorted_insert_sorted:
  "sorted_by_updatedAt_desc ys \<Longrightarrow> sorted_by_updatedAt_desc (insert_sorted by_updatedAt_desc x ys)"
  by (induction ys) (auto simp: sorted_by_updatedAt_desc_def set_insert_sorted by_updatedAt_desc_def)

lemma sorted_js_sort: "sorted_by_updatedAt_desc (js_sort by_updatedAt_desc xs)"
proof (induction xs)
  case Nil
  show ?case by (simp add: js_sort_def sorted_by_updatedAt_desc_def)
next
  case (Cons x xs)
  then show ?case using sorted_insert_sorted [of "js_sort by_updatedAt_desc xs" x]
    by (simp add: js_sort_def)
qed

lemma undated_after_positive_if_sorted:
  "sorted_by_updatedAt_desc ps \<Longrightarrow> undated_after_positive ps"
  unfolding sorted_by_updatedAt_desc_def undated_after_positive_def
  by (erule sorted_wrt_mono_rel [rotated]) auto

lemma distinct_insert_sorted:
  "distinct (map f (insert_sorted cmp x ys)) = (f x \<notin> f ` set ys \<and> distinct (map f ys))"
  by (induction ys) (auto simp: set_insert_sorted)

lemma distinct_js_sort: "distinct (map f (js_sort cmp xs)) = distinct (map f xs)"
proof (induction xs)
  case Nil
  show ?case by (simp add: js_sort_def)
next
  case (Cons x xs)
  have "js_sort cmp (x # xs) = insert_sorted cmp x (js_sort cmp xs)"
    by (simp add: js_sort_def)
  with Cons show ?case by (simp add: distinct_insert_sorted set_js_sort)
qed

text \<open>
  C6, as the claim states it, fails at the epoch: a missing \<open>updatedAt\<close> counts as 0
  seconds, so a document without the field ties with a document whose timestamp is
  second 0 and, the sort being stable, stays before it when the snapshot lists it first.
\<close>

theorem snapshot_undated_before_dated:
  "projects (projects_onSnapshot initial_client undated_then_epoch)
     = [(''a'', sample_doc ''pending'' None), (''b'', sample_doc ''pending'' (Some (Timestamp 0)))]
   \<and> \<not> undated_after_dated (projects (projects_onSnapshot initial_client undated_then_epoch))"
  by (simp add: undated_after_dated_def projects_onSnapshot_def js_sort_def by_updatedAt_desc_def
      undated_then_epoch_def sample_doc_def)

text \<open>
  C6, amended. On every projects snapshot the local list is the snapshot's documents
  rearranged in descending order of \<open>updatedAt\<close> seconds, a missing \<open>updatedAt\<close>
  counting as 0 seconds; so every document without \<open>updatedAt\<close> comes after all
  documents whose \<open>updatedAt\<close> is after the epoch.
\<close>

theorem snapshot_sorted_by_updatedAt:
  "mset (projects (projects_onSnapshot c docs)) = mset docs
   \<and> sorted_by_updatedAt_desc (projects (projects_onSnapshot c docs))
   \<and> undated_after_positive (projects (projects_onSnapshot c docs))"
  by (simp add: projects_onSnapshot_def mset_js_sort sorted_js_sort
      undated_after_positive_if_sorted)

theorem snapshot_sorted_by_updatedAt_witness:
  "map fst (projects (projects_onSnapshot initial_client three_docs)) = [''c'', ''b'', ''a'']
   \<and> undated_after_positive (projects (projects_onSnapshot initial_client three_docs))"
  using snapshot_sorted_by_updatedAt [of initial_client three_docs]
  by (simp add: projects_onSnapshot_def js_sort_def by_updatedAt_desc_def three_docs_def
      sample_doc_def)

section \<open>File lists never shrink under a single writer\<close>

lemma file_list_resolve [simp]: "file_list l (resolve_project now d) = file_list l d"
  by (cases l) (simp_all add: resolve_project_def)

lemma file_list_status [simp]: "file_list l (d\<lparr>status := s\<rparr>) = file_list l d"
  by (cases l) simp_all

lemma file_list_updatedAt [simp]: "file_list l (d\<lparr>updatedAt := t\<rparr>) = file_list l d"
  by (cases l) simp_all

lemma file_list_set [simp]:
  "file_list l (set_project_field (FileList l' fs) d) = (if l = l' then fs else file_list l d)"
  by (cases l; cases l') simp_all

lemma in_stepI:
  assumes "distinct (map fst (projects_col st))" and "distinct (map fst (projects c))"
    and "\<And>i d. (i, d) \<in> set (projects c) \<Longrightarrow> near st i d"
    and "\<And>i ds. selectedProject c = Some (i, ds) \<Longrightarrow> near st i ds"
    and "\<And>i ds d l. selectedProject c = Some (i, ds) \<Longrightarrow> (i, d) \<in> set (projects c)
           \<Longrightarrow> length (file_list l ds) \<le> length (file_list l d)"
  shows "in_step (c, st)"
  unfolding in_step_def using assms by blast

lemma in_step_distinct_col: "in_step (c, st) \<Longrightarrow> distinct (map fst (projects_col st))"
  by (simp add: in_step_def)

lemma in_step_distinct_projects: "in_step (c, st) \<Longrightarrow> distinct (map fst (projects c))"
  by (simp add: in_step_def)

lemma in_step_near_projects: "in_step (c, st) \<Longrightarrow> (i, d) \<in> set (projects c) \<Longrightarrow> near st i d"
  by (simp add: in_step_def)

lemma in_step_near_selected:
  "in_step (c, st) \<Longrightarrow> selectedProject c = Some (i, ds) \<Longrightarrow> near st i ds"
  by (simp add: in_step_def)

lemma in_step_selected_below:
  "in_step (c, st) \<Longrightarrow> selectedProject c = Some (i, ds) \<Longrightarrow> (i, d) \<in> set (projects c)
   \<Longrightarrow> length (file_list l ds) \<le> length (file_list l d)"
  by (simp add: in_step_def)

lemmas in_stepD = in_step_distinct_col in_step_distinct_projects in_step_near_projects
  in_step_near_selected in_step_selected_below

lemma in_step_initial:
  "projects c = [] \<Longrightarrow> selectedProject c = None \<Longrightarrow> distinct (map fst (projects_col st))
   \<Longrightarrow> in_step (c, st)"
  by (simp add: in_step_def)

lemma near_self: "get_project st i = Some d \<Longrightarrow> near st i d"
  by (simp add: near_def)

lemma near_le:
  "near st i d \<Longrightarrow> get_project st i = Some d' \<Longrightarrow> length (file_list l d) \<le> length (file_list l d')"
  by (auto simp: near_def)

subsection \<open>What the handlers do to the projects collection\<close>

lemma handleCreateProject_effect:
  assumes "handleCreateProject fault new_id now c st data = (c', st', out)"
  shows "projects c' = projects c \<and> selectedProject c' = selectedProject c
       \<and> (projects_col st' = projects_col st
          \<or> (\<exists>d. projects_col st' = AList.update new_id d (projects_col st)))"
  using assms
  by (auto simp: handleCreateProject_def addDoc_def split: option.splits sum.splits)

lemma handleUpdateStatus_effect:
  assumes "handleUpdateStatus fault now c st pid s = (c', st', out)"
  shows "c' = c
       \<and> (projects_col st' = projects_col st
          \<or> (\<exists>d v. get_project st pid = Some d
                 \<and> projects_col st' = AList.update pid v (projects_col st)
                 \<and> (\<forall>l. file_list l v = file_list l d)))"
  using assms
  by (auto simp: handleUpdateStatus_def updateDoc_project_def split: option.splits sum.splits)

lemma updateDoc_project_effect:
  assumes "updateDoc_project fault st pid now fs = Inr st'"
  shows "\<exists>d. get_project st pid = Some d
           \<and> projects_col st' = AList.update pid (resolve_project now (fold set_project_field fs d))
                                  (projects_col st)"
  using assms
  by (auto simp: updateDoc_project_def split: option.splits)

lemma handleAddFile_effect:
  assumes "handleAddFile fault uuid clock now c st pid fileData type = (c', st', out)"
  shows "c' = c
       \<and> (projects_col st' = projects_col st
          \<or> (\<exists>sel d v x. selectedProject c = Some sel \<and> get_project st pid = Some d
                 \<and> projects_col st' = AList.update pid v (projects_col st)
                 \<and> (\<forall>l. file_list l v = (if l = type then file_list type (snd sel) @ [x]
                                         else file_list l d))))"
proof (cases "selectedProject c")
  case None
  with assms show ?thesis by (simp add: handleAddFile_def)
next
  case sel: (Some sel)
  show ?thesis
  proof (cases "user c")
    case None
    with assms sel show ?thesis by (simp add: handleAddFile_def)
  next
    case (Some u)
    let ?x = "file_data.extend fileData (attachment.fields uuid u clock)"
    let ?fs = "[FileList type (file_list type (snd sel) @ [?x]), UpdatedAt ServerTimestamp]"
    show ?thesis
    proof (cases "updateDoc_project fault st pid now ?fs")
      case (Inl e)
      with assms sel Some show ?thesis by (simp add: handleAddFile_def)
    next
      case (Inr st1)
      from updateDoc_project_effect [OF Inr] obtain d where
        d: "get_project st pid = Some d"
        and col: "projects_col st1
                  = AList.update pid (resolve_project now (fold set_project_field ?fs d))
                      (projects_col st)"
        by blast
      have c: "c' = c" and st: "st' = st1"
        using assms sel Some Inr by (simp_all add: handleAddFile_def)
      have "\<forall>l. file_list l (resolve_project now (fold set_project_field ?fs d))
                = (if l = type then file_list type (snd sel) @ [?x] else file_list l d)"
        by simp
      with c st sel d col show ?thesis by blast
    qed
  qed
qed

lemma handleFileSubmit_effect:
  assumes "handleFileSubmit fault uuid clock now c st fileData type = (c', st', out)"
  shows "c' = c
       \<and> (projects_col st' = projects_col st
          \<or> (\<exists>i ds d v x. selectedProject c = Some (i, ds) \<and> get_project st i = Some d
                 \<and> projects_col st' = AList.update i v (projects_col st)
                 \<and> (\<forall>l. file_list l v = (if l = type then file_list type ds @ [x]
                                         else file_list l d))))"
proof (cases "detail_rendered c")
  case None
  with assms show ?thesis by (simp add: handleFileSubmit_def)
next
  case (Some project)
  then have sel: "selectedProject c = Some project"
    by (simp add: detail_rendered_def split: if_splits)
  show ?thesis
  proof (cases "url fileData = [] \<or> name fileData = []")
    case True
    with assms Some show ?thesis by (simp add: handleFileSubmit_def)
  next
    case False
    with assms Some have
      "handleAddFile fault uuid clock now c st (fst project) fileData type = (c', st', out)"
      by (simp add: handleFileSubmit_def)
    from handleAddFile_effect [OF this] have c: "c' = c"
      and e: "projects_col st' = projects_col st
          \<or> (\<exists>sel d v x. selectedProject c = Some sel \<and> get_project st (fst project) = Some d
                 \<and> projects_col st' = AList.update (fst project) v (projects_col st)
                 \<and> (\<forall>l. file_list l v = (if l = type then file_list type (snd sel) @ [x]
                                         else file_list l d)))"
      by blast+
    from e show ?thesis
    proof
      assume "projects_col st' = projects_col st"
      with c show ?thesis by simp
    next
      assume "\<exists>sel d v x. selectedProject c = Some sel \<and> get_project st (fst project) = Some d
                 \<and> projects_col st' = AList.update (fst project) v (projects_col st)
                 \<and> (\<forall>l. file_list l v = (if l = type then file_list type (snd sel) @ [x]
                                         else file_list l d))"
      then obtain sel' d v x where
        s': "selectedProject c = Some sel'" and d: "get_project st (fst project) = Some d"
        and col: "projects_col st' = AList.update (fst project) v (projects_col st)"
        and fl: "\<forall>l. file_list l v = (if l = type then file_list type (snd sel') @ [x]
                                         else file_list l d)"
        by blast
      from s' sel have eq: "sel' = project" by simp
      have "selectedProject c = Some (fst project, snd project) \<and> get_project st (fst project) = Some d
                 \<and> projects_col st' = AList.update (fst project) v (projects_col st)
                 \<and> (\<forall>l. file_list l v = (if l = type then file_list type (snd project) @ [x]
                                         else file_list l d))"
        using sel d col fl eq by simp
      then have "\<exists>i ds d v x. selectedProject c = Some (i, ds) \<and> get_project st i = Some d
                 \<and> projects_col st' = AList.update i v (projects_col st)
                 \<and> (\<forall>l. file_list l v = (if l = type then file_list type ds @ [x]
                                         else file_list l d))"
        by (intro exI)
      with c show ?thesis by simp
    qed
  qed
qed

lemma handleUpdateProfile_effect:
  assumes "handleUpdateProfile fault c st n r = (c', st', out)"
  shows "c' = c \<and> projects_col st' = projects_col st"
  using assms
  by (auto simp: handleUpdateProfile_def updateDoc_user_def split: option.splits sum.splits)


lemma grows_refl: "grows st st"
  by (simp add: grows_def)

lemma grows_trans: "grows st st' \<Longrightarrow> grows st' st'' \<Longrightarrow> grows st st''"
  unfolding grows_def by (meson le_trans)

lemma grows_same_col: "projects_col st' = projects_col st \<Longrightarrow> grows st st'"
  by (auto simp: grows_def stored_length_def get_project_def)

lemma in_step_same:
  assumes "in_step (c, st)" and "projects c' = projects c"
    and "selectedProject c' = selectedProject c" and "projects_col st' = projects_col st"
  shows "in_step (c', st')"
proof -
  have "get_project st' = get_project st"
    using assms(4) by (simp add: get_project_def fun_eq_iff)
  then have n: "near st' = near st" by (simp add: near_def fun_eq_iff)
  show ?thesis
  proof (rule in_stepI)
    show "distinct (map fst (projects_col st'))"
      using assms(4) in_step_distinct_col [OF assms(1)] by simp
    show "distinct (map fst (projects c'))"
      using assms(2) in_step_distinct_projects [OF assms(1)] by simp
    show "near st' j dj" if "(j, dj) \<in> set (projects c')" for j dj
      using that assms(1,2) n by (simp add: in_step_near_projects)
    show "near st' j dj" if "selectedProject c' = Some (j, dj)" for j dj
      using that assms(1,3) n by (simp add: in_step_near_selected)
    show "length (file_list l dj) \<le> length (file_list l d)"
      if "selectedProject c' = Some (j, dj)" and "(j, d) \<in> set (projects c')" for j dj d l
      using that assms(1,2,3) in_step_selected_below [of c st j dj d l] by simp
  qed
qed

lemma near_update_other:
  "projects_col st' = AList.update k v (projects_col st) \<Longrightarrow> i \<noteq> k \<Longrightarrow> near st i d
   \<Longrightarrow> near st' i d"
  by (simp add: near_def get_project_def update_conv')

lemma near_update_same:
  assumes "projects_col st' = AList.update k v (projects_col st)"
    and "near st k d" and "get_project st k = Some d0"
    and "\<forall>l. length (file_list l d) \<le> length (file_list l v)
            \<and> length (file_list l v) \<le> Suc (length (file_list l d))"
  shows "near st' k d"
  using assms by (simp add: near_def get_project_def update_conv')

lemma in_step_update_same_lengths:
  assumes inv: "in_step (c, st)"
    and col: "projects_col st' = AList.update k v (projects_col st)"
    and len: "\<forall>d. get_project st k = Some d \<longrightarrow>
                (\<forall>l. length (file_list l v) = length (file_list l d))"
  shows "in_step (c, st') \<and> grows st st'"
proof -
  have near': "near st' i d" if n: "near st i d" for i d
  proof (cases "i = k")
    case False
    with col n show ?thesis by (simp add: near_update_other)
  next
    case True
    from n True obtain d0 where d0: "get_project st k = Some d0"
      and b: "\<forall>l. length (file_list l d) \<le> length (file_list l d0)
                \<and> length (file_list l d0) \<le> Suc (length (file_list l d))"
      by (auto simp: near_def)
    from len d0 have "\<forall>l. length (file_list l v) = length (file_list l d0)" by simp
    with b have "\<forall>l. length (file_list l d) \<le> length (file_list l v)
            \<and> length (file_list l v) \<le> Suc (length (file_list l d))" by simp
    with col n d0 True show ?thesis using near_update_same by blast
  qed
  have "distinct (map fst (projects_col st'))"
    using in_step_distinct_col [OF inv] col by (simp add: distinct_update)
  then have "in_step (c, st')"
    using near' in_stepD [OF inv] by (intro in_stepI) blast+
  moreover have "grows st st'"
    unfolding grows_def stored_length_def get_project_def
  proof (intro allI impI)
    fix pid l n
    assume a: "map_option (\<lambda>d. length (file_list l d)) (map_of (projects_col st) pid) = Some n"
    then obtain d where d: "map_of (projects_col st) pid = Some d" and n: "n = length (file_list l d)"
      by auto
    show "\<exists>m. map_option (\<lambda>d. length (file_list l d)) (map_of (projects_col st') pid) = Some m
            \<and> n \<le> m"
    proof (cases "pid = k")
      case False
      with d n col show ?thesis by (simp add: update_conv')
    next
      case True
      with d len have "length (file_list l v) = length (file_list l d)"
        by (simp add: get_project_def)
      with n True col show ?thesis by (simp add: update_conv')
    qed
  qed
  ultimately show ?thesis by simp
qed

lemma in_step_append:
  assumes inv: "in_step (c, st)"
    and sel: "selectedProject c = Some (i, ds)"
    and d: "get_project st i = Some d"
    and col: "projects_col st' = AList.update i v (projects_col st)"
    and fl: "\<forall>l. file_list l v = (if l = t then file_list t ds @ [x] else file_list l d)"
  shows "in_step (c, st') \<and> grows st st'"
proof -
  have nds: "near st i ds" using inv sel by (rule in_step_near_selected)
  have below: "length (file_list l ds) \<le> length (file_list l dj)"
    if "(i, dj) \<in> set (projects c)" for dj l
    using inv sel that by (rule in_step_selected_below)
  from nds d have ds: "\<And>l. length (file_list l ds) \<le> length (file_list l d)
                      \<and> length (file_list l d) \<le> Suc (length (file_list l ds))"
    by (auto simp: near_def)
  have vds: "\<forall>l. length (file_list l ds) \<le> length (file_list l v)
            \<and> length (file_list l v) \<le> Suc (length (file_list l ds))"
    using fl ds by auto
  have nds': "near st' i ds"
    using col nds d vds by (rule near_update_same)
  have nproj: "near st' j dj" if m: "(j, dj) \<in> set (projects c)" for j dj
  proof (cases "j = i")
    case False
    from inv m have "near st j dj" by (rule in_step_near_projects)
    with col False show ?thesis by (simp add: near_update_other)
  next
    case True
    from inv m True have n: "near st i dj" by (simp add: in_step_near_projects)
    with d have dj: "\<And>l. length (file_list l dj) \<le> length (file_list l d)
                      \<and> length (file_list l d) \<le> Suc (length (file_list l dj))"
      by (auto simp: near_def)
    have "length (file_list l dj) \<le> length (file_list l v)
            \<and> length (file_list l v) \<le> Suc (length (file_list l dj))" for l
    proof (cases "l = t")
      case False
      with fl dj [of l] show ?thesis by simp
    next
      case lt: True
      from below [of dj t] m True have "length (file_list t ds) \<le> length (file_list t dj)"
        by simp
      moreover from dj [of t] ds [of t]
      have "length (file_list t dj) \<le> Suc (length (file_list t ds))" by linarith
      ultimately show ?thesis using fl lt by simp
    qed
    then have "\<forall>l. length (file_list l dj) \<le> length (file_list l v)
            \<and> length (file_list l v) \<le> Suc (length (file_list l dj))" by blast
    with col n d True show ?thesis using near_update_same by blast
  qed
  have "distinct (map fst (projects_col st'))"
    using in_step_distinct_col [OF inv] col by (simp add: distinct_update)
  then have "in_step (c, st')"
  proof (rule in_stepI)
    show "distinct (map fst (projects c))" using inv by (rule in_step_distinct_projects)
    show "near st' j dj" if "(j, dj) \<in> set (projects c)" for j dj using that by (rule nproj)
    show "near st' j dj" if "selectedProject c = Some (j, dj)" for j dj
      using that sel nds' by simp
    show "length (file_list l dj) \<le> length (file_list l d)"
      if "selectedProject c = Some (j, dj)" and "(j, d) \<in> set (projects c)" for j dj d l
      using inv that by (rule in_step_selected_below)
  qed
  moreover have "grows st st'"
    unfolding grows_def stored_length_def get_project_def
  proof (intro allI impI)
    fix pid l n
    assume a: "map_option (\<lambda>d. length (file_list l d)) (map_of (projects_col st) pid) = Some n"
    show "\<exists>m. map_option (\<lambda>d. length (file_list l d)) (map_of (projects_col st') pid) = Some m
            \<and> n \<le> m"
    proof (cases "pid = i")
      case False
      from a obtain z where "map_of (projects_col st) pid = Some z" and "n = length (file_list l z)"
        by auto
      with False col show ?thesis by (simp add: update_conv')
    next
      case True
      with a d have n: "n = length (file_list l d)" by (simp add: get_project_def)
      have "length (file_list l d) \<le> length (file_list l v)"
        using fl ds [of l] by auto
      with n True col show ?thesis by (simp add: update_conv')
    qed
  qed
  ultimately show ?thesis by simp
qed

lemma in_step_onSelect:
  assumes "in_step (c, st)" and "p \<in> set (projects c)"
  shows "in_step (onSelect c p, st)"
proof (cases p)
  case (Pair i d)
  have dp: "distinct (map fst (projects c))" using assms(1) by (rule in_step_distinct_projects)
  have same: "d' = d" if "(i, d') \<in> set (projects c)" for d'
    using dp that assms(2) Pair eq_key_imp_eq_value [of "projects c" i d' d] by simp
  have pr: "projects (onSelect c p) = projects c"
    and se: "selectedProject (onSelect c p) = Some (i, d)"
    using Pair by (simp_all add: onSelect_def)
  show ?thesis
  proof (rule in_stepI)
    show "distinct (map fst (projects_col st))" using assms(1) by (rule in_step_distinct_col)
    show "distinct (map fst (projects (onSelect c p)))" using dp pr by simp
    show "near st j dj" if "(j, dj) \<in> set (projects (onSelect c p))" for j dj
      using assms(1) that pr by (simp add: in_step_near_projects)
    show "near st j dj" if "selectedProject (onSelect c p) = Some (j, dj)" for j dj
      using that se assms Pair by (simp add: in_step_near_projects)
    show "length (file_list l dj) \<le> length (file_list l d')"
      if "selectedProject (onSelect c p) = Some (j, dj)"
        and "(j, d') \<in> set (projects (onSelect c p))" for j dj d' l
      using that se pr same by simp
  qed
qed

lemma in_step_onBack:
  assumes "in_step (c, st)"
  shows "in_step (onBack c, st)"
  using in_stepD [OF assms] by (intro in_stepI) (simp_all add: onBack_def)

lemma in_step_navigate:
  assumes "in_step (c, st)"
  shows "in_step (navigate c t, st)"
  using in_stepD [OF assms]
  by (intro in_stepI) (simp_all add: navigate_def split: tab.splits)

lemma in_step_onSnapshot:
  assumes "in_step (c, st)"
  shows "in_step (projects_onSnapshot c (projects_col st), st)"
proof -
  have d: "distinct (map fst (projects_col st))" using assms by (rule in_step_distinct_col)
  have p: "get_project st i = Some d" if "(i, d) \<in> set (projects_col st)" for i d
    using d that by (simp add: get_project_def)
  have n: "near st i d" if "(i, d) \<in> set (projects_col st)" for i d
    using p [OF that] by (rule near_self)
  have s: "length (file_list l ds) \<le> length (file_list l d)"
    if "selectedProject c = Some (i, ds)" and "(i, d) \<in> set (projects_col st)" for i ds d l
  proof -
    from assms that(1) have "near st i ds" by (rule in_step_near_selected)
    then show ?thesis using p [OF that(2)] by (rule near_le)
  qed
  have pr: "projects (projects_onSnapshot c (projects_col st)) = js_sort by_updatedAt_desc (projects_col st)"
    and se: "selectedProject (projects_onSnapshot c (projects_col st)) = selectedProject c"
    by (simp_all add: projects_onSnapshot_def)
  show ?thesis
  proof (rule in_stepI)
    show "distinct (map fst (projects_col st))" by (rule d)
    show "distinct (map fst (projects (projects_onSnapshot c (projects_col st))))"
      using d pr by (simp add: distinct_js_sort)
    show "near st j dj" if "(j, dj) \<in> set (projects (projects_onSnapshot c (projects_col st)))"
      for j dj using that pr n by (simp add: set_js_sort)
    show "near st j dj" if "selectedProject (projects_onSnapshot c (projects_col st)) = Some (j, dj)"
      for j dj using that se assms by (simp add: in_step_near_selected)
    show "length (file_list l dj) \<le> length (file_list l d')"
      if "selectedProject (projects_onSnapshot c (projects_col st)) = Some (j, dj)"
        and "(j, d') \<in> set (projects (projects_onSnapshot c (projects_col st)))" for j dj d' l
      using that se pr s by (simp add: set_js_sort)
  qed
qed


lemma perform_step:
  assumes inv: "in_step w" and fresh: "generated_id_unused a w"
  shows "in_step (perform a w) \<and> grows (snd w) (snd (perform a w))"
proof (cases w)
  case (Pair c st)
  note w = Pair
  have inv': "in_step (c, st)" using inv w by simp
  show ?thesis
  proof (cases a)
    case (CreateProject fault new_id now data)
    obtain c' st' out where h: "handleCreateProject fault new_id now c st data = (c', st', out)"
      by (cases "handleCreateProject fault new_id now c st data")
    from handleCreateProject_effect [OF h] have
      pr: "projects c' = projects c" and se: "selectedProject c' = selectedProject c"
      and e: "projects_col st' = projects_col st
              \<or> (\<exists>d. projects_col st' = AList.update new_id d (projects_col st))"
      by blast+
    have p: "perform a w = (c', st')" using CreateProject w h by simp
    from fresh CreateProject w have "get_project st new_id = None"
      by (simp add: get_project_def map_of_eq_None_iff)
    with e inv' have "in_step (c, st') \<and> grows st st'"
      using in_step_same [of c st c st'] grows_same_col [of st' st]
        in_step_update_same_lengths [of c st st' new_id]
      by auto
    with pr se have "in_step (c', st') \<and> grows st st'"
      using in_step_same [of c st' c' st'] by simp
    with p w show ?thesis by simp
  next
    case (SetStatus fault now pid s)
    obtain c' st' out where h: "handleUpdateStatus fault now c st pid s = (c', st', out)"
      by (cases "handleUpdateStatus fault now c st pid s")
    from handleUpdateStatus_effect [OF h] have c: "c' = c"
      and e: "projects_col st' = projects_col st
          \<or> (\<exists>d v. get_project st pid = Some d
                 \<and> projects_col st' = AList.update pid v (projects_col st)
                 \<and> (\<forall>l. file_list l v = file_list l d))"
      by blast+
    have p: "perform a w = (c', st')" using SetStatus w h by simp
    from e have "in_step (c, st') \<and> grows st st'"
    proof
      assume "projects_col st' = projects_col st"
      with inv' show ?thesis
        using in_step_same [of c st c st'] grows_same_col [of st' st] by simp
    next
      assume "\<exists>d v. get_project st pid = Some d
                 \<and> projects_col st' = AList.update pid v (projects_col st)
                 \<and> (\<forall>l. file_list l v = file_list l d)"
      then obtain d v where "get_project st pid = Some d"
        and "projects_col st' = AList.update pid v (projects_col st)"
        and "\<forall>l. file_list l v = file_list l d"
        by blast
      with inv' show ?thesis
        using in_step_update_same_lengths [of c st st' pid v] by simp
    qed
    with p c w show ?thesis by simp
  next
    case (AppendFile fault uuid clock now fileData uploadType)
    obtain c' st' out where
      h: "handleFileSubmit fault uuid clock now c st fileData uploadType = (c', st', out)"
      by (cases "handleFileSubmit fault uuid clock now c st fileData uploadType")
    from handleFileSubmit_effect [OF h] have c: "c' = c"
      and e: "projects_col st' = projects_col st
          \<or> (\<exists>i ds d v x. selectedProject c = Some (i, ds) \<and> get_project st i = Some d
                 \<and> projects_col st' = AList.update i v (projects_col st)
                 \<and> (\<forall>l. file_list l v = (if l = uploadType then file_list uploadType ds @ [x]
                                         else file_list l d)))"
      by blast+
    have p: "perform a w = (c', st')" using AppendFile w h by simp
    from e have "in_step (c, st') \<and> grows st st'"
    proof
      assume "projects_col st' = projects_col st"
      with inv' show ?thesis
        using in_step_same [of c st c st'] grows_same_col [of st' st] by simp
    next
      assume "\<exists>i ds d v x. selectedProject c = Some (i, ds) \<and> get_project st i = Some d
                 \<and> projects_col st' = AList.update i v (projects_col st)
                 \<and> (\<forall>l. file_list l v = (if l = uploadType then file_list uploadType ds @ [x]
                                         else file_list l d))"
      then obtain i ds d v x where "selectedProject c = Some (i, ds)"
        and "get_project st i = Some d"
        and "projects_col st' = AList.update i v (projects_col st)"
        and "\<forall>l. file_list l v = (if l = uploadType then file_list uploadType ds @ [x]
                                         else file_list l d)"
        by blast
      with inv' show ?thesis by (rule in_step_append)
    qed
    with p c w show ?thesis by simp
  next
    case (UpdateProfile fault n r)
    obtain c' st' out where h: "handleUpdateProfile fault c st n r = (c', st', out)"
      by (cases "handleUpdateProfile fault c st n r")
    from handleUpdateProfile_effect [OF h] have c: "c' = c"
      and e: "projects_col st' = projects_col st" by blast+
    have p: "perform a w = (c', st')" using UpdateProfile w h by simp
    from e inv' have "in_step (c, st') \<and> grows st st'"
      using in_step_same [of c st c st'] grows_same_col [of st' st] by simp
    with p c w show ?thesis by simp
  next
    case (Navigate t)
    with w inv' show ?thesis by (simp add: in_step_navigate grows_refl)
  next
    case (OpenProject i)
    show ?thesis
    proof (cases "activeTab c = Projects \<and> i < length (projects c)")
      case True
      then have "projects c ! i \<in> set (projects c)" by simp
      with inv' have "in_step (onSelect c (projects c ! i), st)" by (rule in_step_onSelect)
      with True OpenProject w show ?thesis by (simp add: grows_refl)
    next
      case False
      with OpenProject w inv' show ?thesis by (auto simp: grows_refl)
    qed
  next
    case CloseProject
    with w inv' show ?thesis
      by (cases "detail_rendered c") (simp_all add: in_step_onBack grows_refl)
  next
    case Refresh
    with w inv' show ?thesis
      by (cases "user c") (simp_all add: in_step_onSnapshot grows_refl)
  qed
qed

lemma run_steps:
  assumes "in_step w" and "generated_ids_unused acts w"
  shows "in_step (run acts w) \<and> grows (snd w) (snd (run acts w))"
  using assms
proof (induction acts arbitrary: w)
  case Nil
  then show ?case by (simp add: run_def grows_refl)
next
  case (Cons a acts)
  from Cons.prems have s: "in_step (perform a w) \<and> grows (snd w) (snd (perform a w))"
    using perform_step [of w a] by simp
  from Cons.prems have "generated_ids_unused acts (perform a w)" by simp
  with s Cons.IH [of "perform a w"] have
    "in_step (run acts (perform a w)) \<and> grows (snd (perform a w)) (snd (run acts (perform a w)))"
    by simp
  with s show ?case
    using grows_trans [of "snd w" "snd (perform a w)" "snd (run acts (perform a w))"]
    by (simp add: run_def)
qed

lemma run_append: "run (xs @ ys) w = run ys (run xs w)"
  by (simp add: run_def)

lemma generated_ids_unused_append:
  "generated_ids_unused (xs @ ys) w
   = (generated_ids_unused xs w \<and> generated_ids_unused ys (run xs w))"
  by (induction xs arbitrary: w) (simp_all add: run_def)

text \<open>
  C5, as the claim states it, fails once a second client writes: client 0 opens the
  project while its inputs are empty, client 1 appends two files, and the append of
  client 0 then replaces the stored list of two files by a list of one.
\<close>

theorem stale_append_shrinks_inputs:
  "stored_length (snd (run_clients (butlast stale_append) two_clients)) ''p1'' Inputs = Some 2
   \<and> stored_length (snd (run_clients stale_append two_clients)) ''p1'' Inputs = Some 1"
  by (simp add: stale_append_def two_clients_def run_clients_def perform_as_def handlers
      store_ops examples stored_length_def)

text \<open>
  C5, amended. For a client that is the only writer of the store and starts with an empty
  projects list and no project open, every run of \<open>createProject\<close>, \<open>setStatus\<close>,
  \<open>appendFile\<close> from the detail view and \<open>updateProfile\<close>, mixed with navigation,
  opening and closing projects and snapshot deliveries, keeps every stored project and
  never shortens its \<open>inputs\<close> or \<open>outputs\<close>: a length reached after a prefix of the
  run is not undercut after the whole run.
\<close>

theorem single_client_lists_never_shrink:
  assumes "projects c0 = []" and "selectedProject c0 = None"
    and "distinct (map fst (projects_col st0))"
    and "generated_ids_unused (before @ after) (c0, st0)"
    and "stored_length (snd (run before (c0, st0))) pid l = Some n"
  shows "\<exists>m. stored_length (snd (run (before @ after) (c0, st0))) pid l = Some m \<and> n \<le> m"
proof -
  have i0: "in_step (c0, st0)" using assms(1-3) by (rule in_step_initial)
  from assms(4) have f1: "generated_ids_unused before (c0, st0)"
    and f2: "generated_ids_unused after (run before (c0, st0))"
    by (simp_all add: generated_ids_unused_append)
  from run_steps [OF i0 f1] have "in_step (run before (c0, st0))" by simp
  from run_steps [OF this f2] have
    "grows (snd (run before (c0, st0))) (snd (run after (run before (c0, st0))))" by simp
  with assms(5) show ?thesis
    by (simp add: grows_def run_append)
qed

theorem single_client_lists_never_shrink_witness:
  "projects (signed_in ''u1'') = [] \<and> selectedProject (signed_in ''u1'') = None
   \<and> distinct (map fst (projects_col empty_store))
   \<and> generated_ids_unused (take 5 two_appends @ drop 5 two_appends) (signed_in ''u1'', empty_store)
   \<and> stored_length (snd (run (take 5 two_appends) (signed_in ''u1'', empty_store))) ''p1'' Inputs
       = Some 1
   \<and> stored_length (snd (run (take 5 two_appends @ drop 5 two_appends)
        (signed_in ''u1'', empty_store))) ''p1'' Inputs = Some 1"
  using single_client_lists_never_shrink [of "signed_in ''u1''" empty_store "take 5 two_appends"
      "drop 5 two_appends" "''p1''" Inputs 1]
  by (simp add: two_appends_def run_def handlers store_ops examples stored_length_def)

end
